theory Spec2Isabelle
  imports Complex_Main
begin

section \<open>Air-quality dashboard: AQI utilities of app.py\<close>

text \<open>
  The program computes with Python floats, using NaN for "no value". Here a number is an
  exact rational and NaN (or Python's None) is \<open>None\<close> of an option type, so the
  arithmetic below is the exact arithmetic that the floating-point code approximates;
  infinities are not represented.
\<close>

subsection \<open>Errors and strings\<close>

datatype py_error = ZeroDivisionError

text \<open>The placeholder string of the program is a single em dash (U+2014), here its
  UTF-8 bytes; the labels of the pie chart contain an en dash (U+2013).\<close>

definition em_dash :: string where
  "em_dash = [CHR 0xE2, CHR 0x80, CHR 0x94]"

definition en_dash :: string where
  "en_dash = [CHR 0xE2, CHR 0x80, CHR 0x93]"

subsection \<open>The static tables\<close>

text \<open>A breakpoint is the tuple \<open>(BPlo, BPhi, Ilo, Ihi)\<close>.\<close>

type_synonym breakpoint = "rat \<times> rat \<times> rat \<times> rat"

definition pm25_table :: "breakpoint list" where
  "pm25_table =
    [(0, 12, 0, 50),
     (121 / 10, 354 / 10, 51, 100),
     (355 / 10, 554 / 10, 101, 150),
     (555 / 10, 1504 / 10, 151, 200),
     (1505 / 10, 2504 / 10, 201, 300),
     (2505 / 10, 3504 / 10, 301, 400),
     (3505 / 10, 5004 / 10, 401, 500)]"

definition o3_table :: "breakpoint list" where
  "o3_table =
    [(0, 54, 0, 50),
     (55, 70, 51, 100),
     (71, 85, 101, 150),
     (86, 105, 151, 200),
     (106, 200, 201, 300)]"

text \<open>The dictionary \<open>AQI_TABLE\<close>, as an association list in the order of the source.\<close>

definition AQI_TABLE :: "(string \<times> breakpoint list) list" where
  "AQI_TABLE = [(''pm25'', pm25_table), (''o3'', o3_table)]"

definition AQI_CATEGORY :: "(rat \<times> rat \<times> string) list" where
  "AQI_CATEGORY =
    [(0, 50, ''Good''),
     (51, 100, ''Moderate''),
     (101, 150, ''Unhealthy for Sensitive Groups''),
     (151, 200, ''Unhealthy''),
     (201, 300, ''Very Unhealthy''),
     (301, 500, ''Hazardous'')]"

subsection \<open>\<open>compute_aqi_for_value\<close>\<close>

text \<open>The \<open>for\<close> loop over the table: \<open>None\<close> when the loop ends without returning,
  otherwise what the \<open>return\<close> inside it gives. Python's division raises
  \<open>ZeroDivisionError\<close> on a zero divisor.\<close>

fun scan_table :: "breakpoint list \<Rightarrow> rat \<Rightarrow> (py_error + rat) option" where
  "scan_table [] v = None"
| "scan_table ((BPlo, BPhi, Ilo, Ihi) # rest) v =
     (if BPlo \<le> v \<and> v \<le> BPhi
      then Some (if BPhi - BPlo = 0 then Inl ZeroDivisionError
                 else Inr ((Ihi - Ilo) / (BPhi - BPlo) * (v - BPlo) + Ilo))
      else scan_table rest v)"

text \<open>\<open>AQI_TABLE.get(pollutant, [])\<close>.\<close>

definition table_for :: "string \<Rightarrow> breakpoint list" where
  "table_for pollutant = (case map_of AQI_TABLE pollutant of None \<Rightarrow> [] | Some t \<Rightarrow> t)"

definition compute_aqi_for_value :: "string \<Rightarrow> rat option \<Rightarrow> py_error + rat option" where
  "compute_aqi_for_value pollutant val =
     (case val of
        None \<Rightarrow> Inr None
      | Some v \<Rightarrow>
          (let table = table_for pollutant in
           case scan_table table v of
             Some (Inl e) \<Rightarrow> Inl e
           | Some (Inr x) \<Rightarrow> Inr (Some x)
           | None \<Rightarrow>
               if table \<noteq> [] \<and> v > fst (snd (last table)) then Inr (Some 500)
               else Inr None))"

subsection \<open>\<open>aqi_category\<close>\<close>

fun scan_category :: "(rat \<times> rat \<times> string) list \<Rightarrow> rat \<Rightarrow> string" where
  "scan_category [] aqi = em_dash"
| "scan_category ((lo, hi, name) # rest) aqi =
     (if lo \<le> aqi \<and> aqi \<le> hi then name else scan_category rest aqi)"

definition aqi_category :: "rat option \<Rightarrow> string" where
  "aqi_category aqi = (case aqi of None \<Rightarrow> em_dash | Some a \<Rightarrow> scan_category AQI_CATEGORY a)"

subsection \<open>Readings and the filters of \<open>update_all\<close>\<close>

text \<open>
  One row of the data frame \<open>df\<close>. A timestamp is a number of nanoseconds since the
  epoch, \<open>None\<close> for NaT; the column \<open>value\<close> is the field \<open>val\<close>. The column
  \<open>pollutant\<close> is taken to hold a string in every row. The program reads \<open>df\<close> as a
  global; here it is an argument.
\<close>

record reading =
  datetime_local :: "int option"
  city :: "string option"
  station :: "string option"
  pollutant :: string
  val :: "rat option"

definition ns_per_hour :: int where
  "ns_per_hour = 3600000000000"

definition ns_per_day :: int where
  "ns_per_day = 86400000000000"

text \<open>Python's truth value of an optional string: \<open>None\<close> and the empty string are false.\<close>

fun truthy :: "'a list option \<Rightarrow> bool" where
  "truthy None = False"
| "truthy (Some s) = (s \<noteq> [])"

text \<open>\<open>stations_by_city.query("city == @city")["station"].dropna().unique().tolist()\<close>;
  only membership in this list is used.\<close>

definition valid_stations :: "reading list \<Rightarrow> string \<Rightarrow> string list" where
  "valid_stations df c = remdups (List.map_filter station [r \<leftarrow> df. city r = Some c])"

text \<open>The guard on the station: inside \<open>if city\<close>, a station that is not one of the
  city's stations becomes \<open>None\<close>.\<close>

definition guard_station :: "reading list \<Rightarrow> string option \<Rightarrow> string option \<Rightarrow> string option" where
  "guard_station df cty stn =
     (case cty of
        None \<Rightarrow> stn
      | Some c \<Rightarrow>
          if c = [] then stn
          else (case stn of
                  None \<Rightarrow> None
                | Some s \<Rightarrow> if s \<noteq> [] \<and> s \<notin> set (valid_stations df c) then None else Some s))"

text \<open>\<open>Timestamp.normalize()\<close>: midnight of the same day.\<close>

definition normalize :: "int \<Rightarrow> int" where
  "normalize t = (t div ns_per_day) * ns_per_day"

text \<open>A comparison with NaT is false.\<close>

fun ts_ge :: "int option \<Rightarrow> int \<Rightarrow> bool" where
  "ts_ge None s = False"
| "ts_ge (Some t) s = (t \<ge> s)"

fun ts_lt :: "int option \<Rightarrow> int \<Rightarrow> bool" where
  "ts_lt None e = False"
| "ts_lt (Some t) e = (t < e)"

definition filter_readings ::
  "reading list \<Rightarrow> string option \<Rightarrow> string option \<Rightarrow> int option \<Rightarrow> int option \<Rightarrow>
   string list option \<Rightarrow> reading list" where
  "filter_readings df cty stn start_date end_date pollutants =
     (let stn' = guard_station df cty stn;
          dff1 = (if truthy cty then [r \<leftarrow> df. city r = cty] else df);
          dff2 = (if truthy stn' then [r \<leftarrow> dff1. station r = stn'] else dff1);
          sd = map_option normalize start_date;
          ed = map_option normalize end_date;
          dff3 = (case sd of None \<Rightarrow> dff2
                  | Some s \<Rightarrow> [r \<leftarrow> dff2. ts_ge (datetime_local r) s]);
          dff4 = (case ed of None \<Rightarrow> dff3
                  | Some e \<Rightarrow> [r \<leftarrow> dff3. ts_lt (datetime_local r) (e + ns_per_day)]);
          dff5 = (case pollutants of None \<Rightarrow> dff4
                  | Some ps \<Rightarrow> if ps = [] then dff4 else [r \<leftarrow> dff4. pollutant r \<in> set ps])
      in dff5)"

subsection \<open>The concentrations pivot and the resampling\<close>

text \<open>\<open>dropna(subset=["datetime_local", "value"]).sort_values("datetime_local")\<close>: the rows
  that have both a timestamp and a value, as triples, ordered by timestamp.\<close>

type_synonym row = "int \<times> string \<times> rat"

fun complete_row :: "reading \<Rightarrow> row option" where
  "complete_row r =
     (case datetime_local r of
        None \<Rightarrow> None
      | Some t \<Rightarrow> (case val r of None \<Rightarrow> None | Some v \<Rightarrow> Some (t, pollutant r, v)))"

definition dropna_sorted :: "reading list \<Rightarrow> row list" where
  "dropna_sorted dff = sort_key fst (List.map_filter complete_row dff)"

text \<open>The mean of a list of numbers; NaN for the empty list.\<close>

definition mean :: "rat list \<Rightarrow> rat option" where
  "mean xs = (if xs = [] then None else Some (sum_list xs / of_nat (length xs)))"

text \<open>A data frame with a time index: the index and, for each column name, the cells of
  the column, one for each entry of the index. The program reaches a column by its name
  only, so the order of the columns is the order of first occurrence.\<close>

record frame =
  index :: "int list"
  columns :: "(string \<times> rat option list) list"

text \<open>\<open>pivot_table(index="datetime_local", columns="pollutant", values="value",
  aggfunc="mean").sort_index()\<close>: one row for each distinct timestamp, in increasing
  order, one column for each pollutant; a cell is the mean of the values of its
  timestamp and pollutant, NaN when there are none.\<close>

definition pivot_table :: "row list \<Rightarrow> frame" where
  "pivot_table rows =
     (let idx = sort (remdups (map fst rows));
          names = remdups (map (\<lambda>(t, p, v). p) rows)
      in \<lparr> index = idx,
           columns = map (\<lambda>p. (p, map (\<lambda>t. mean [v. (t', p', v) \<leftarrow> rows, t' = t \<and> p' = p]) idx))
                         names \<rparr>)"

text \<open>
  The label of the bucket of a timestamp under \<open>resample(agg)\<close>: the start of its hour
  for \<open>H\<close>, the start of its day for \<open>D\<close>; for \<open>W\<close> (weeks that end on Sunday, closed and
  labelled on the right) midnight of the first Sunday that is not before its day. Day 0
  of the epoch is a Thursday, so day 3 is a Sunday. For any other \<open>agg\<close> the program
  does not resample, and the label is the timestamp itself.
\<close>

definition bucket_label :: "string \<Rightarrow> int \<Rightarrow> int" where
  "bucket_label agg t =
     (if agg = ''H'' then (t div ns_per_hour) * ns_per_hour
      else if agg = ''D'' then (t div ns_per_day) * ns_per_day
      else if agg = ''W'' then (let d = t div ns_per_day in (d + (3 - d) mod 7) * ns_per_day)
      else t)"

definition bucket_step :: "string \<Rightarrow> int" where
  "bucket_step agg =
     (if agg = ''H'' then ns_per_hour
      else if agg = ''D'' then ns_per_day
      else 7 * ns_per_day)"

text \<open>The NaN cells of a column are skipped by every mean.\<close>

definition bucket_values :: "string \<Rightarrow> int list \<Rightarrow> rat option list \<Rightarrow> int \<Rightarrow> rat list" where
  "bucket_values agg idx col b =
     [v. (t, c) \<leftarrow> zip idx col, v \<leftarrow> (case c of None \<Rightarrow> [] | Some x \<Rightarrow> [x]), bucket_label agg t = b]"

text \<open>\<open>conc.resample(agg).mean()\<close>: every bucket from that of the first row to that of
  the last one, also the empty ones; a cell is the mean of the cells of its column whose
  timestamps fall in the bucket.\<close>

definition resample_mean :: "string \<Rightarrow> frame \<Rightarrow> frame" where
  "resample_mean agg conc =
     (case index conc of
        [] \<Rightarrow> conc
      | t0 # ts \<Rightarrow>
          (let first = bucket_label agg t0;
               final = bucket_label agg (last (t0 # ts));
               n = nat ((final - first) div bucket_step agg) + 1;
               labels = map (\<lambda>k. first + int k * bucket_step agg) [0..<n]
           in \<lparr> index = labels,
                columns = map (\<lambda>(p, col). (p, map (\<lambda>b. mean (bucket_values agg (index conc) col b)) labels))
                              (columns conc) \<rparr>))"

definition aggregate :: "reading list \<Rightarrow> string \<Rightarrow> frame" where
  "aggregate dff agg =
     (let conc = pivot_table (dropna_sorted dff)
      in if agg \<in> {''H'', ''D'', ''W''} then resample_mean agg conc else conc)"

subsection \<open>The AQI columns\<close>

text \<open>\<open>conc[p].apply(lambda v: compute_aqi_for_value(p, v))\<close>: an exception of one call
  ends the whole computation.\<close>

fun apply_aqi :: "string \<Rightarrow> rat option list \<Rightarrow> py_error + rat option list" where
  "apply_aqi p [] = Inr []"
| "apply_aqi p (v # vs) =
     (case compute_aqi_for_value p v of
        Inl e \<Rightarrow> Inl e
      | Inr a \<Rightarrow> (case apply_aqi p vs of Inl e \<Rightarrow> Inl e | Inr as \<Rightarrow> Inr (a # as)))"

text \<open>Assignment to a key of a Python dictionary: a key that is present keeps its
  place, a new key goes to the end.\<close>

fun dict_set :: "('k \<times> 'v) list \<Rightarrow> 'k \<Rightarrow> 'v \<Rightarrow> ('k \<times> 'v) list" where
  "dict_set [] k v = [(k, v)]"
| "dict_set ((k', v') # kvs) k v =
     (if k' = k then (k, v) # kvs else (k', v') # dict_set kvs k v)"

text \<open>The loop \<open>for p in (pollutants or [])\<close> that fills \<open>aqi_cols\<close>.\<close>

fun build_aqi_cols ::
  "string list \<Rightarrow> frame \<Rightarrow> (string \<times> rat option list) list \<Rightarrow>
   py_error + (string \<times> rat option list) list" where
  "build_aqi_cols [] conc acc = Inr acc"
| "build_aqi_cols (p # ps) conc acc =
     (case map_of (columns conc) p of
        None \<Rightarrow> build_aqi_cols ps conc acc
      | Some col \<Rightarrow>
          (case apply_aqi p col of
             Inl e \<Rightarrow> Inl e
           | Inr a \<Rightarrow> build_aqi_cols ps conc (dict_set acc p a)))"

text \<open>The defined values of a column.\<close>

definition defined_values :: "rat option list \<Rightarrow> rat list" where
  "defined_values xs = List.map_filter (\<lambda>x. x) xs"

text \<open>\<open>aqi_df.max(axis=1)\<close>: the maximum of the defined values of a row, NaN when the
  row has none.\<close>

definition nanmax :: "rat option list \<Rightarrow> rat option" where
  "nanmax xs = (case defined_values xs of [] \<Rightarrow> None | y # ys \<Rightarrow> Some (fold max ys y))"

definition row_max :: "nat \<Rightarrow> (string \<times> rat option list) list \<Rightarrow> rat option list" where
  "row_max n cols = map (\<lambda>k. nanmax (map (\<lambda>(p, col). col ! k) cols)) [0..<n]"

subsection \<open>The KPIs\<close>

text \<open>\<open>series.notna().any()\<close>.\<close>

definition notna_any :: "rat option list \<Rightarrow> bool" where
  "notna_any xs = list_ex (\<lambda>x. x \<noteq> None) xs"

text \<open>\<open>np.nanmean\<close>, and the column means of \<open>DataFrame.mean\<close>, skip NaN.\<close>

definition nanmean :: "rat option list \<Rightarrow> rat option" where
  "nanmean xs = mean (defined_values xs)"

definition avg_aqi :: "rat option list \<Rightarrow> rat option" where
  "avg_aqi aqi_max = (if notna_any aqi_max then nanmean aqi_max else None)"

text \<open>\<open>thresh or 100\<close>: \<open>None\<close> and \<open>0\<close> are false.\<close>

fun thresh_or_100 :: "rat option \<Rightarrow> rat" where
  "thresh_or_100 None = 100"
| "thresh_or_100 (Some t) = (if t = 0 then 100 else t)"

text \<open>The comparison \<open>aqi_max >= t\<close> of a series with a number: false on NaN.\<close>

fun series_ge :: "rat option \<Rightarrow> rat \<Rightarrow> bool" where
  "series_ge None t = False"
| "series_ge (Some x) t = (x \<ge> t)"

text \<open>The mean of a series of booleans, \<open>True\<close> counting as 1 and \<open>False\<close> as 0, over all
  its entries.\<close>

definition bool_mean :: "bool list \<Rightarrow> rat" where
  "bool_mean bs = sum_list (map (\<lambda>b. if b then 1 else 0) bs) / of_nat (length bs)"

definition exceed_rate :: "rat option list \<Rightarrow> rat option \<Rightarrow> rat option" where
  "exceed_rate aqi_max thresh =
     (if notna_any aqi_max
      then Some (bool_mean (map (\<lambda>a. series_ge a (thresh_or_100 thresh)) aqi_max) * 100)
      else None)"

text \<open>\<open>Series.idxmax()\<close>: the index label of the first occurrence of the maximum, NaN
  skipped; a scan from the left that keeps the best entry so far and replaces it only
  by a strictly greater one. \<open>None\<close> when there is no defined value.\<close>

fun idxmax_step :: "('i \<times> rat) option \<Rightarrow> 'i \<times> rat option \<Rightarrow> ('i \<times> rat) option" where
  "idxmax_step best (i, None) = best"
| "idxmax_step None (i, Some x) = Some (i, x)"
| "idxmax_step (Some (j, y)) (i, Some x) = (if x > y then Some (i, x) else Some (j, y))"

definition idxmax :: "('i \<times> rat option) list \<Rightarrow> ('i \<times> rat) option" where
  "idxmax s = foldl idxmax_step None s"

text \<open>\<open>worst_idx\<close> and \<open>worst_value\<close>; \<open>None\<close> stands for the text of the placeholder.\<close>

definition worst :: "int list \<Rightarrow> rat option list \<Rightarrow> (int \<times> rat) option" where
  "worst idx aqi_max = (if notna_any aqi_max then idxmax (zip idx aqi_max) else None)"

definition mean_by_pollutant :: "(string \<times> rat option list) list \<Rightarrow> (string \<times> rat option) list" where
  "mean_by_pollutant cols = map (\<lambda>(p, col). (p, nanmean col)) cols"

definition driver_key :: "(string \<times> rat option) list \<Rightarrow> string" where
  "driver_key means =
     (case idxmax means of None \<Rightarrow> em_dash | Some (p, m) \<Rightarrow> p)"

definition o3_label :: string where
  "o3_label = ''O'' @ [CHR 0xE2, CHR 0x82, CHR 0x83]"

definition driver_label :: "string \<Rightarrow> string" where
  "driver_label k = (if k = ''pm25'' then ''PM2.5'' else if k = ''o3'' then o3_label else k)"

subsection \<open>The category breakdown\<close>

definition pie_bins :: "rat list" where
  "pie_bins = [0, 50, 100, 150, 200, 300, 500]"

definition pie_labels :: "string list" where
  "pie_labels =
    [''Good (0'' @ en_dash @ ''50)'',
     ''Moderate (51'' @ en_dash @ ''100)'',
     ''Unhealthy SG (101'' @ en_dash @ ''150)'',
     ''Unhealthy (151'' @ en_dash @ ''200)'',
     ''Very Unhealthy (201'' @ en_dash @ ''300)'',
     ''Hazardous (301'' @ en_dash @ ''500)'']"

text \<open>\<open>bins.searchsorted(x, side="left")\<close> on increasing bins: the number of bins
  smaller than \<open>x\<close>.\<close>

definition searchsorted_left :: "rat list \<Rightarrow> rat \<Rightarrow> nat" where
  "searchsorted_left bins x = length (takeWhile (\<lambda>b. b < x) bins)"

text \<open>\<open>pd.cut(x, bins, labels, right=True, include_lowest=True)\<close> on one value: the
  label of the interval, open on the left and closed on the right, that holds \<open>x\<close>; the
  lowest edge belongs to the first interval; NaN for NaN and for a value outside the
  bins.\<close>

definition cut :: "rat list \<Rightarrow> string list \<Rightarrow> rat option \<Rightarrow> string option" where
  "cut bins labels a =
     (case a of
        None \<Rightarrow> None
      | Some x \<Rightarrow>
          (let ids = (if x = hd bins then 1 else searchsorted_left bins x)
           in if ids = length bins \<or> ids = 0 then None else Some (labels ! (ids - 1))))"

text \<open>\<open>value_counts()\<close>: how often each category occurs, NaN not counted.\<close>

definition value_counts :: "string option list \<Rightarrow> string \<Rightarrow> nat" where
  "value_counts cats l = length [c \<leftarrow> cats. c = Some l]"

text \<open>\<open>cat_series.value_counts().reindex(pie_labels, fill_value=0)\<close>.\<close>

definition counts :: "rat option list \<Rightarrow> (string \<times> nat) list" where
  "counts aqi_max =
     (let cat_series = map (cut pie_bins pie_labels) aqi_max
      in map (\<lambda>l. (l, value_counts cat_series l)) pie_labels)"

subsection \<open>\<open>update_all\<close>\<close>

text \<open>
  What the callback returns. A figure is the data it is drawn from, a KPI tile and the
  narrative are the values they are formatted from, \<open>None\<close> for the placeholder.
\<close>

datatype figure =
  Empty_fig string
| Trend_fig "(int \<times> rat option) list" "rat option" "(int \<times> rat) option"
| Bar_fig "(string \<times> rat option) list"
| Pie_fig "(string \<times> nat) list"

datatype insight =
  No_data_in_filters
| No_aqi_computed
| Summary "rat option" "rat option" "(int \<times> rat) option" string

record outcome =
  fig_trend :: figure
  fig_bar :: figure
  fig_pie :: figure
  kpi_avg :: "rat option"
  kpi_exc :: "rat option"
  kpi_worst :: "(int \<times> rat) option"
  kpi_driver :: string
  insight_md :: insight

definition empty_outcome :: "insight \<Rightarrow> outcome" where
  "empty_outcome msg =
     \<lparr> fig_trend = Empty_fig ''AQI trend'',
       fig_bar = Empty_fig ''Pollutant contribution'',
       fig_pie = Empty_fig ''AQI category breakdown'',
       kpi_avg = None, kpi_exc = None, kpi_worst = None, kpi_driver = em_dash,
       insight_md = msg \<rparr>"

definition update_all ::
  "reading list \<Rightarrow> string option \<Rightarrow> string option \<Rightarrow> int option \<Rightarrow> int option \<Rightarrow>
   string list option \<Rightarrow> string \<Rightarrow> rat option \<Rightarrow> py_error + outcome" where
  "update_all df cty stn start_date end_date pollutants agg thresh =
     (let dff = filter_readings df cty stn start_date end_date pollutants
      in if dff = [] then Inr (empty_outcome No_data_in_filters)
         else
           (let conc = aggregate dff agg
            in case build_aqi_cols (case pollutants of None \<Rightarrow> [] | Some ps \<Rightarrow> ps) conc [] of
                 Inl e \<Rightarrow> Inl e
               | Inr aqi_cols \<Rightarrow>
                   if aqi_cols = [] then Inr (empty_outcome No_aqi_computed)
                   else
                     (let aqi_max = row_max (length (index conc)) aqi_cols;
                          avg = avg_aqi aqi_max;
                          exc = exceed_rate aqi_max thresh;
                          w = worst (index conc) aqi_max;
                          means = mean_by_pollutant aqi_cols;
                          driver = driver_label (driver_key means)
                      in Inr \<lparr> fig_trend = Trend_fig (zip (index conc) aqi_max) thresh w,
                               fig_bar = Bar_fig means,
                               fig_pie = Pie_fig (counts aqi_max),
                               kpi_avg = avg, kpi_exc = exc, kpi_worst = w,
                               kpi_driver = driver,
                               insight_md = Summary avg exc w driver \<rparr>)))"

subsection \<open>Notions used in the statements\<close>

text \<open>The test of the loop of \<open>compute_aqi_for_value\<close> and its interpolation formula,
  for one breakpoint.\<close>

definition matches :: "rat \<Rightarrow> breakpoint \<Rightarrow> bool" where
  "matches v = (\<lambda>(BPlo, BPhi, Ilo, Ihi). BPlo \<le> v \<and> v \<le> BPhi)"

definition interpolate :: "breakpoint \<Rightarrow> rat \<Rightarrow> rat" where
  "interpolate = (\<lambda>(BPlo, BPhi, Ilo, Ihi) v. (Ihi - Ilo) / (BPhi - BPlo) * (v - BPlo) + Ilo)"

text \<open>A table whose ranges increase strictly, in concentration and in index, each
  range starting above the end of the one before it.\<close>

fun increasing_bps :: "breakpoint list \<Rightarrow> bool" where
  "increasing_bps [] = True"
| "increasing_bps [(lo, hi, ilo, ihi)] = (lo < hi \<and> ilo < ihi)"
| "increasing_bps ((lo, hi, ilo, ihi) # (lo', hi', ilo', ihi') # rest) =
     (lo < hi \<and> ilo < ihi \<and> hi < lo' \<and> ihi < ilo' \<and>
      increasing_bps ((lo', hi', ilo', ihi') # rest))"

text \<open>A table whose adjacent breakpoints share their boundary concentration.\<close>

fun shared_boundaries :: "breakpoint list \<Rightarrow> bool" where
  "shared_boundaries [] = True"
| "shared_boundaries [b] = True"
| "shared_boundaries ((lo, hi, ilo, ihi) # (lo', hi', ilo', ihi') # rest) =
     (lo' = hi \<and> shared_boundaries ((lo', hi', ilo', ihi') # rest))"

text \<open>A table in which each range starts \<open>c\<close> above the end of the one before it in
  concentration, and \<open>i\<close> above it in index.\<close>

fun stepped_bps :: "rat \<Rightarrow> rat \<Rightarrow> breakpoint list \<Rightarrow> bool" where
  "stepped_bps c i [] = True"
| "stepped_bps c i [b] = True"
| "stepped_bps c i ((lo, hi, ilo, ihi) # (lo', hi', ilo', ihi') # rest) =
     (lo' = hi + c \<and> ilo' = ihi + i \<and> stepped_bps c i ((lo', hi', ilo', ihi') # rest))"

text \<open>An index that lies in one of the bands of \<open>AQI_CATEGORY\<close>.\<close>

definition in_some_band :: "rat \<Rightarrow> bool" where
  "in_some_band x = list_ex (\<lambda>(lo, hi, name). lo \<le> x \<and> x \<le> hi) AQI_CATEGORY"

text \<open>The exceedance rate in the words of the specification: the buckets with a
  defined index at or above the threshold, over the buckets with a defined index.\<close>

definition spec_exceedance_rate :: "rat option list \<Rightarrow> rat \<Rightarrow> rat option" where
  "spec_exceedance_rate buckets threshold =
     (let d = defined_values buckets
      in if d = [] then None
         else Some (of_nat (length [x \<leftarrow> d. x \<ge> threshold]) / of_nat (length d)))"

text \<open>The distribution in the words of the specification: for each band of
  \<open>AQI_CATEGORY\<close>, in its order, the number of buckets with a defined index that
  \<open>aqi_category\<close> gives the label of the band.\<close>

definition spec_distribute :: "rat option list \<Rightarrow> (string \<times> nat) list" where
  "spec_distribute buckets =
     map (\<lambda>(lo, hi, name). (name, length [a \<leftarrow> buckets. a \<noteq> None \<and> aqi_category a = name]))
         AQI_CATEGORY"

text \<open>The \<open>k\<close>-th interval of \<open>pie_bins\<close>: open on the left, closed on the right, the
  first one with its left end.\<close>

definition in_bin :: "nat \<Rightarrow> rat \<Rightarrow> bool" where
  "in_bin k x = ((pie_bins ! k < x \<and> x \<le> pie_bins ! Suc k) \<or> (k = 0 \<and> x = pie_bins ! 0))"

text \<open>The position in \<open>AQI_CATEGORY\<close> of the first band that holds an index.\<close>

definition band_index :: "rat \<Rightarrow> nat option" where
  "band_index x =
     map_option fst (find (\<lambda>(k, lo, hi, name). lo \<le> x \<and> x \<le> hi) (enumerate 0 AQI_CATEGORY))"

text \<open>Position \<open>k\<close> of a series holds the label \<open>t\<close> and the value \<open>v\<close>, every defined
  value before it is smaller and no defined value is greater.\<close>

definition first_max_at :: "('i \<times> rat option) list \<Rightarrow> nat \<Rightarrow> 'i \<Rightarrow> rat \<Rightarrow> bool" where
  "first_max_at s k t v \<longleftrightarrow>
     k < length s \<and> s ! k = (t, Some v) \<and>
     (\<forall>j<k. \<forall>x. snd (s ! j) = Some x \<longrightarrow> x < v) \<and>
     (\<forall>j<length s. \<forall>x. snd (s ! j) = Some x \<longrightarrow> x \<le> v)"

text \<open>The values of the readings that contribute to the bucket \<open>b\<close> of the pollutant
  \<open>p\<close>: those of the readings of \<open>p\<close> that have a timestamp and a value and whose
  timestamp falls in the bucket.\<close>

definition contributing :: "reading list \<Rightarrow> string \<Rightarrow> string \<Rightarrow> int \<Rightarrow> rat list" where
  "contributing dff agg p b =
     [v. r \<leftarrow> dff, (t, q, v) \<leftarrow> (case complete_row r of None \<Rightarrow> [] | Some x \<Rightarrow> [x]),
         q = p \<and> bucket_label agg t = b]"

text \<open>A small data frame: one station with a reading of \<open>pm25\<close> on day 0 and readings of
  \<open>pm25\<close> and \<open>o3\<close> on day 2, none on day 1.\<close>

definition ex_df :: "reading list" where
  "ex_df =
    [\<lparr> datetime_local = Some 0, city = Some ''A'', station = Some ''S'',
       pollutant = ''pm25'', val = Some 10 \<rparr>,
     \<lparr> datetime_local = Some (2 * ns_per_day + 5), city = Some ''A'', station = Some ''S'',
       pollutant = ''pm25'', val = Some 30 \<rparr>,
     \<lparr> datetime_local = Some (2 * ns_per_day + 5), city = Some ''A'', station = Some ''S'',
       pollutant = ''o3'', val = Some 60 \<rparr>]"

text \<open>The labels of \<open>AQI_CATEGORY\<close>, in its order.\<close>

definition band_labels :: "string list" where
  "band_labels = map (\<lambda>(lo, hi, name). name) AQI_CATEGORY"

text \<open>A data frame with a gap: readings of \<open>pm25\<close> of 12.0 on day 0, 35.4 on day 1 and
  55.4 on day 3, none on day 2.\<close>

definition ex_gap_df :: "reading list" where
  "ex_gap_df =
    [\<lparr> datetime_local = Some 0, city = Some ''A'', station = Some ''S'',
       pollutant = ''pm25'', val = Some 12 \<rparr>,
     \<lparr> datetime_local = Some ns_per_day, city = Some ''A'', station = Some ''S'',
       pollutant = ''pm25'', val = Some (354 / 10) \<rparr>,
     \<lparr> datetime_local = Some (3 * ns_per_day), city = Some ''A'', station = Some ''S'',
       pollutant = ''pm25'', val = Some (554 / 10) \<rparr>]"

section \<open>Properties\<close>

subsection \<open>The tables\<close>

lemma known_tables:
  "map_of AQI_TABLE p = Some t \<Longrightarrow>
   (p = ''pm25'' \<and> t = pm25_table) \<or> (p = ''o3'' \<and> t = o3_table)"
  by (auto simp: AQI_TABLE_def split: if_splits)

lemma table_for_known: "map_of AQI_TABLE p = Some t \<Longrightarrow> table_for p = t"
  by (simp add: table_for_def)

lemma table_for_unknown: "map_of AQI_TABLE p = None \<Longrightarrow> table_for p = []"
  by (simp add: table_for_def)

lemma table_for_cases:
  "table_for p = (if p = ''pm25'' then pm25_table else if p = ''o3'' then o3_table else [])"
  by (simp add: table_for_def AQI_TABLE_def)

lemma widths_positive:
  "map_of AQI_TABLE p = Some t \<Longrightarrow> \<forall>(BPlo, BPhi, Ilo, Ihi) \<in> set t. BPlo < BPhi"
  by (drule known_tables) (auto simp: pm25_table_def o3_table_def)

lemma known_nonempty: "map_of AQI_TABLE p = Some t \<Longrightarrow> t \<noteq> []"
  by (drule known_tables) (auto simp: pm25_table_def o3_table_def)

text \<open>
  C4, as stated, fails: the ranges of a table increase strictly, but adjacent breakpoints
  do not share a boundary value. The first range of \<open>pm25\<close> ends at 12.0 and the second
  starts at 12.1, and the concentration 12.05 between them matches no breakpoint.
\<close>

theorem aqi_table_shared_boundary_counterexample:
  "increasing_bps pm25_table \<and> \<not> shared_boundaries pm25_table
   \<and> fst (snd (pm25_table ! 0)) = 12 \<and> fst (pm25_table ! 1) = 121 / 10
   \<and> scan_table pm25_table (1205 / 100) = None
   \<and> compute_aqi_for_value ''pm25'' (Some (1205 / 100)) = Inr None"
  by (simp add: pm25_table_def compute_aqi_for_value_def table_for_cases)

text \<open>
  C4, amended: the tables of \<open>AQI_TABLE\<close> are those of \<open>pm25\<close> and \<open>o3\<close>; in each, every
  range has its low end below its high end and the next range starts strictly above the
  end of the one before it, in concentration and in index: 0.1 above it for \<open>pm25\<close> and
  1 above it for \<open>o3\<close> in concentration, 1 above it in index. Adjacent breakpoints are
  disjoint; they share no boundary value.
\<close>

theorem aqi_table_increasing_stepped:
  "map snd AQI_TABLE = [pm25_table, o3_table] \<and>
   increasing_bps pm25_table \<and> increasing_bps o3_table \<and>
   stepped_bps (1 / 10) 1 pm25_table \<and> stepped_bps 1 1 o3_table"
  by (simp add: AQI_TABLE_def pm25_table_def o3_table_def)

subsection \<open>\<open>compute_aqi_for_value\<close>\<close>

lemma scan_table_find:
  "\<forall>(BPlo, BPhi, Ilo, Ihi) \<in> set t. BPlo < BPhi \<Longrightarrow>
   scan_table t v = map_option (\<lambda>b. Inr (interpolate b v)) (find (matches v) t)"
  by (induction t v rule: scan_table.induct) (auto simp: matches_def interpolate_def)

lemma compute_at_12: "compute_aqi_for_value ''pm25'' (Some 12) = Inr (Some 50)"
  by (simp add: compute_aqi_for_value_def table_for_cases pm25_table_def)

lemma compute_at_35_4: "compute_aqi_for_value ''pm25'' (Some (354 / 10)) = Inr (Some 100)"
  by (simp add: compute_aqi_for_value_def table_for_cases pm25_table_def)

text \<open>
  C5: for a pollutant that has a table and a concentration \<open>v\<close>, when \<open>b\<close> is the first
  breakpoint of the table, in its order, with \<open>BPlo \<le> v \<le> BPhi\<close>, the result is the
  interpolation \<open>(Ihi - Ilo) / (BPhi - BPlo) * (v - BPlo) + Ilo\<close> on \<open>b\<close>, and no
  exception; the index of \<open>pm25\<close> is 50 at 12.0 and 100 at 35.4.
\<close>

theorem compute_aqi_interpolates:
  "(map_of AQI_TABLE p = Some table \<longrightarrow> find (matches v) table = Some b \<longrightarrow>
      compute_aqi_for_value p (Some v) = Inr (Some (interpolate b v)))
   \<and> compute_aqi_for_value ''pm25'' (Some 12) = Inr (Some 50)
   \<and> compute_aqi_for_value ''pm25'' (Some (354 / 10)) = Inr (Some 100)"
proof (intro conjI impI)
  assume t: "map_of AQI_TABLE p = Some table" and f: "find (matches v) table = Some b"
  have "scan_table table v = Some (Inr (interpolate b v))"
    using scan_table_find [OF widths_positive [OF t], of v] f by simp
  then show "compute_aqi_for_value p (Some v) = Inr (Some (interpolate b v))"
    by (simp add: compute_aqi_for_value_def table_for_known [OF t])
qed (rule compute_at_12, rule compute_at_35_4)

theorem compute_aqi_interpolates_witness:
  "map_of AQI_TABLE ''pm25'' = Some pm25_table
   \<and> find (matches 20) pm25_table = Some (121 / 10, 354 / 10, 51, 100)
   \<and> compute_aqi_for_value ''pm25'' (Some 20) = Inr (Some (15754 / 233))"
proof -
  have t: "map_of AQI_TABLE ''pm25'' = Some pm25_table"
    by (simp add: AQI_TABLE_def)
  have f: "find (matches 20) pm25_table = Some (121 / 10, 354 / 10, 51, 100)"
    by (simp add: pm25_table_def matches_def)
  have "compute_aqi_for_value ''pm25'' (Some 20) =
        Inr (Some (interpolate (121 / 10, 354 / 10, 51, 100) 20))"
    using compute_aqi_interpolates [of "''pm25''" pm25_table 20 "(121 / 10, 354 / 10, 51, 100)"] t f
    by blast
  then show ?thesis using t f by (simp add: interpolate_def)
qed

lemma scan_above:
  "map_of AQI_TABLE p = Some t \<Longrightarrow> v > fst (snd (last t)) \<Longrightarrow> scan_table t v = None"
  by (drule known_tables) (auto simp: pm25_table_def o3_table_def)

lemma scan_below:
  "map_of AQI_TABLE p = Some t \<Longrightarrow> v < fst (hd t) \<Longrightarrow>
   scan_table t v = None \<and> \<not> v > fst (snd (last t))"
  by (drule known_tables) (auto simp: pm25_table_def o3_table_def)

text \<open>
  C6: for a pollutant that has a table, a concentration above the \<open>BPhi\<close> of the last
  breakpoint gives the index 500, and a concentration below the \<open>BPlo\<close> of the first
  breakpoint gives NaN, neither a number nor an exception; the index of \<open>pm25\<close> is 500 at
  600.0 and NaN at -5.0.
\<close>

theorem compute_aqi_saturation_underflow:
  "(map_of AQI_TABLE p = Some table \<longrightarrow>
      (v > fst (snd (last table)) \<longrightarrow> compute_aqi_for_value p (Some v) = Inr (Some 500)) \<and>
      (v < fst (hd table) \<longrightarrow> compute_aqi_for_value p (Some v) = Inr None))
   \<and> compute_aqi_for_value ''pm25'' (Some 600) = Inr (Some 500)
   \<and> compute_aqi_for_value ''pm25'' (Some (- 5)) = Inr None"
proof (intro conjI impI)
  assume t: "map_of AQI_TABLE p = Some table" and v: "v > fst (snd (last table))"
  show "compute_aqi_for_value p (Some v) = Inr (Some 500)"
    using scan_above [OF t v] known_nonempty [OF t] v
    by (simp add: compute_aqi_for_value_def table_for_known [OF t])
next
  assume t: "map_of AQI_TABLE p = Some table" and v: "v < fst (hd table)"
  show "compute_aqi_for_value p (Some v) = Inr None"
    using scan_below [OF t v]
    by (simp add: compute_aqi_for_value_def table_for_known [OF t])
next
  show "compute_aqi_for_value ''pm25'' (Some 600) = Inr (Some 500)"
    by (simp add: compute_aqi_for_value_def table_for_cases pm25_table_def)
next
  show "compute_aqi_for_value ''pm25'' (Some (- 5)) = Inr None"
    by (simp add: compute_aqi_for_value_def table_for_cases pm25_table_def)
qed

theorem compute_aqi_saturation_underflow_witness:
  "map_of AQI_TABLE ''o3'' = Some o3_table
   \<and> (201::rat) > fst (snd (last o3_table))
   \<and> compute_aqi_for_value ''o3'' (Some 201) = Inr (Some 500)
   \<and> (- 1 / 2 :: rat) < fst (hd o3_table)
   \<and> compute_aqi_for_value ''o3'' (Some (- 1 / 2)) = Inr None"
proof -
  have t: "map_of AQI_TABLE ''o3'' = Some o3_table"
    by (simp add: AQI_TABLE_def)
  have a: "(201::rat) > fst (snd (last o3_table))"
    by (simp add: o3_table_def)
  have b: "(- 1 / 2 :: rat) < fst (hd o3_table)"
    by (simp add: o3_table_def)
  show ?thesis
    using compute_aqi_saturation_underflow [of "''o3''" o3_table 201]
      compute_aqi_saturation_underflow [of "''o3''" o3_table "- 1 / 2"] t a b
    by blast
qed

text \<open>
  C10: for a pollutant code that is not a key of \<open>AQI_TABLE\<close>, every concentration,
  however large, gives NaN: the ceiling 500 needs a table that is not empty.
\<close>

theorem compute_aqi_unknown_pollutant:
  "map_of AQI_TABLE p = None \<Longrightarrow> compute_aqi_for_value p (Some v) = Inr None"
  by (simp add: compute_aqi_for_value_def table_for_unknown)

theorem compute_aqi_unknown_pollutant_witness:
  "map_of AQI_TABLE ''co'' = None \<and> compute_aqi_for_value ''co'' (Some 1000000) = Inr None"
proof -
  have u: "map_of AQI_TABLE ''co'' = None"
    by (simp add: AQI_TABLE_def)
  show ?thesis
    using u compute_aqi_unknown_pollutant [OF u, of 1000000] by simp
qed

subsection \<open>\<open>aqi_category\<close>\<close>

lemma scan_category_marker:
  "scan_category AQI_CATEGORY x = em_dash \<longleftrightarrow> \<not> in_some_band x"
  by (simp add: AQI_CATEGORY_def in_some_band_def em_dash_def)

text \<open>
  C3, as stated, fails: 50.5 lies in \<open>[0, 500]\<close>, but between the bands that end at 50
  and start at 51, and \<open>aqi_category\<close> returns the placeholder for it.
\<close>

theorem aqi_category_gap_counterexample:
  "(0::rat) \<le> 101 / 2 \<and> (101 / 2 :: rat) \<le> 500 \<and> aqi_category (Some (101 / 2)) = em_dash"
  by (simp add: aqi_category_def AQI_CATEGORY_def)

lemma scan_category_label:
  "in_some_band x \<Longrightarrow> scan_category AQI_CATEGORY x \<in> set band_labels"
  by (auto simp: AQI_CATEGORY_def in_some_band_def band_labels_def)

lemma scan_category_band_index:
  "band_index x = Some k \<Longrightarrow> scan_category AQI_CATEGORY x = band_labels ! k"
  by (auto simp: band_index_def AQI_CATEGORY_def band_labels_def split: if_splits)

lemma band_index_None_iff: "band_index x = None \<longleftrightarrow> \<not> in_some_band x"
  by (auto simp: band_index_def AQI_CATEGORY_def in_some_band_def split: if_splits)

lemma em_dash_no_label: "em_dash \<notin> set band_labels"
  by (simp add: band_labels_def AQI_CATEGORY_def em_dash_def)

text \<open>
  C3, amended: \<open>aqi_category\<close> returns a label of \<open>AQI_CATEGORY\<close>, that of the first band
  that holds the index, for every index that lies in one of the bands \<open>[0, 50]\<close>,
  \<open>[51, 100]\<close>, \<open>[101, 150]\<close>, \<open>[151, 200]\<close>, \<open>[201, 300]\<close>, \<open>[301, 500]\<close>; it returns
  the placeholder, which is none of the labels, exactly when the index is undefined or
  lies in none of the bands; a whole number lies in a band exactly when it is in
  \<open>[0, 500]\<close>.
\<close>

theorem aqi_category_marker_iff:
  "(aqi_category aqi = em_dash \<longleftrightarrow> (aqi = None \<or> (\<exists>x. aqi = Some x \<and> \<not> in_some_band x)))
   \<and> (in_some_band x \<longleftrightarrow>
        (0 \<le> x \<and> x \<le> 50) \<or> (51 \<le> x \<and> x \<le> 100) \<or> (101 \<le> x \<and> x \<le> 150) \<or>
        (151 \<le> x \<and> x \<le> 200) \<or> (201 \<le> x \<and> x \<le> 300) \<or> (301 \<le> x \<and> x \<le> 500))
   \<and> (in_some_band (of_int n) \<longleftrightarrow> 0 \<le> n \<and> n \<le> 500)
   \<and> (in_some_band x \<longrightarrow> aqi_category (Some x) \<in> set band_labels)
   \<and> (band_index x = Some k \<longrightarrow> aqi_category (Some x) = band_labels ! k)
   \<and> (in_some_band x \<longleftrightarrow> band_index x \<noteq> None)
   \<and> em_dash \<notin> set band_labels
   \<and> band_labels = [''Good'', ''Moderate'', ''Unhealthy for Sensitive Groups'', ''Unhealthy'',
                     ''Very Unhealthy'', ''Hazardous'']"
proof -
  have a: "aqi_category aqi = em_dash \<longleftrightarrow>
           (aqi = None \<or> (\<exists>x. aqi = Some x \<and> \<not> in_some_band x))"
    by (cases aqi) (simp_all add: aqi_category_def scan_category_marker)
  have b: "in_some_band y \<longleftrightarrow>
        (0 \<le> y \<and> y \<le> 50) \<or> (51 \<le> y \<and> y \<le> 100) \<or> (101 \<le> y \<and> y \<le> 150) \<or>
        (151 \<le> y \<and> y \<le> 200) \<or> (201 \<le> y \<and> y \<le> 300) \<or> (301 \<le> y \<and> y \<le> 500)" for y
    by (simp add: in_some_band_def AQI_CATEGORY_def)
  have c: "in_some_band (of_int n) \<longleftrightarrow> 0 \<le> n \<and> n \<le> 500"
    unfolding b by simp presburger
  have d: "in_some_band x \<longrightarrow> aqi_category (Some x) \<in> set band_labels"
    by (simp add: aqi_category_def scan_category_label)
  have e: "band_index x = Some k \<longrightarrow> aqi_category (Some x) = band_labels ! k"
    by (simp add: aqi_category_def scan_category_band_index)
  have f: "in_some_band x \<longleftrightarrow> band_index x \<noteq> None"
    by (simp add: band_index_None_iff)
  have g: "band_labels = [''Good'', ''Moderate'', ''Unhealthy for Sensitive Groups'', ''Unhealthy'',
                     ''Very Unhealthy'', ''Hazardous'']"
    by (simp add: band_labels_def AQI_CATEGORY_def)
  show ?thesis
    by (intro conjI) (rule a, rule b, rule c, rule d, rule e, rule f, rule em_dash_no_label, rule g)
qed

theorem aqi_category_marker_iff_witness:
  "in_some_band 75 \<and> band_index 75 = Some 1
   \<and> aqi_category (Some 75) \<in> set band_labels
   \<and> aqi_category (Some 75) = ''Moderate''"
proof -
  have i: "in_some_band 75"
    by (simp add: in_some_band_def AQI_CATEGORY_def)
  have k: "band_index 75 = Some 1"
    by (simp add: band_index_def AQI_CATEGORY_def)
  have n: "band_labels ! 1 = ''Moderate''"
    by (simp add: band_labels_def AQI_CATEGORY_def)
  have m: "aqi_category (Some 75) \<in> set band_labels"
    and l: "aqi_category (Some 75) = band_labels ! 1"
    using aqi_category_marker_iff [of "Some 75" 75 0 1] i k by blast+
  from i k m l n show ?thesis
    by (simp only: simp_thms)
qed

subsection \<open>Series with undefined entries\<close>

lemma defined_values_simps [simp]:
  "defined_values [] = []"
  "defined_values (None # xs) = defined_values xs"
  "defined_values (Some x # xs) = x # defined_values xs"
  by (simp_all add: defined_values_def List.map_filter_simps)

lemma notna_any_iff: "notna_any xs \<longleftrightarrow> defined_values xs \<noteq> []"
proof (induction xs)
  case Nil
  then show ?case by (simp add: notna_any_def)
next
  case (Cons a xs)
  then show ?case by (cases a) (simp_all add: notna_any_def)
qed

lemma set_defined_values: "set (defined_values xs) = {x. Some x \<in> set xs}"
proof (induction xs)
  case Nil
  then show ?case by simp
next
  case (Cons a xs)
  then show ?case by (cases a) auto
qed

subsection \<open>The exceedance rate\<close>

lemma sum_indicator:
  "sum_list (map (\<lambda>a. if series_ge a t then 1 else 0) xs) =
   (of_nat (length [x \<leftarrow> defined_values xs. x \<ge> t]) :: rat)"
proof (induction xs)
  case Nil
  then show ?case by simp
next
  case (Cons a xs)
  then show ?case by (cases a) simp_all
qed

lemma length_defined_undefined:
  "length xs = length (defined_values xs) + length [a \<leftarrow> xs. a = None]"
proof (induction xs)
  case Nil
  then show ?case by simp
next
  case (Cons a xs)
  then show ?case by (cases a) simp_all
qed

text \<open>What \<open>exceed_rate\<close> computes on any series: the buckets with an undefined index
  are counted in the denominator.\<close>

lemma exceed_rate_value:
  "exceed_rate aqi_max thresh =
     (if defined_values aqi_max = [] then None
      else Some (of_nat (length [x \<leftarrow> defined_values aqi_max. x \<ge> thresh_or_100 thresh])
                 / of_nat (length (defined_values aqi_max) + length [a \<leftarrow> aqi_max. a = None])
                 * 100))"
  using length_defined_undefined [of aqi_max]
  by (simp add: exceed_rate_def notna_any_iff bool_mean_def comp_def sum_indicator)

text \<open>The daily buckets of the data frame with a gap, as \<open>update_all\<close> draws and
  summarises them: the indices 50, 100, undefined and 150.\<close>

lemma ex_gap_update_all:
  "map_sum id (\<lambda>out. (fig_trend out, kpi_avg out, kpi_exc out))
     (update_all ex_gap_df None None None None (Some [''pm25'']) ''D'' (Some 100)) =
   Inr (Trend_fig [(0, Some 50), (86400000000000, Some 100), (172800000000000, None),
                   (259200000000000, Some 150)] (Some 100) (Some (259200000000000, 150)),
        Some 100, Some 50)"
  by code_simp

text \<open>
  C1: the exceedance rate is the number of buckets with a defined index at or above
  the threshold over the number of buckets with a defined index. The program does not
  compute it: on the indices 50, 100, 150 and one undefined index with the threshold
  100, where the rate is 2/3, it gives 50 per cent, two of all four buckets, although
  its average of the same series, 100, leaves the undefined bucket out. The same comes
  out of \<open>update_all\<close> on the data frame with a gap.
\<close>

theorem exceed_rate_undefined_bucket_in_denominator:
  "exceed_rate [Some 50, Some 100, Some 150, None] (Some 100) = Some 50
   \<and> spec_exceedance_rate [Some 50, Some 100, Some 150, None] 100 = Some (2 / 3)
   \<and> avg_aqi [Some 50, Some 100, Some 150, None] = Some 100
   \<and> map_sum id (\<lambda>out. (fig_trend out, kpi_avg out, kpi_exc out))
        (update_all ex_gap_df None None None None (Some [''pm25'']) ''D'' (Some 100)) =
      Inr (Trend_fig [(0, Some 50), (86400000000000, Some 100), (172800000000000, None),
                      (259200000000000, Some 150)] (Some 100) (Some (259200000000000, 150)),
           Some 100, Some 50)"
proof (intro conjI)
  show "exceed_rate [Some 50, Some 100, Some 150, None] (Some 100) = Some 50"
    by (simp add: exceed_rate_def notna_any_def bool_mean_def)
  show "spec_exceedance_rate [Some 50, Some 100, Some 150, None] 100 = Some (2 / 3)"
    by (simp add: spec_exceedance_rate_def)
  show "avg_aqi [Some 50, Some 100, Some 150, None] = Some 100"
    by (simp add: avg_aqi_def notna_any_def nanmean_def mean_def)
  show "map_sum id (\<lambda>out. (fig_trend out, kpi_avg out, kpi_exc out))
        (update_all ex_gap_df None None None None (Some [''pm25'']) ''D'' (Some 100)) =
      Inr (Trend_fig [(0, Some 50), (86400000000000, Some 100), (172800000000000, None),
                      (259200000000000, Some 150)] (Some 100) (Some (259200000000000, 150)),
           Some 100, Some 50)"
    by (rule ex_gap_update_all)
qed

subsection \<open>The category breakdown\<close>

lemma cut_cases:
  "cut pie_bins pie_labels (Some x) =
     (if x < 0 then None
      else if x \<le> 50 then Some (pie_labels ! 0)
      else if x \<le> 100 then Some (pie_labels ! 1)
      else if x \<le> 150 then Some (pie_labels ! 2)
      else if x \<le> 200 then Some (pie_labels ! 3)
      else if x \<le> 300 then Some (pie_labels ! 4)
      else if x \<le> 500 then Some (pie_labels ! 5)
      else None)"
  by (simp add: cut_def pie_bins_def searchsorted_left_def pie_labels_def)


lemma in_bin_cases:
  "in_bin 0 x \<longleftrightarrow> 0 \<le> x \<and> x \<le> 50"
  "in_bin 1 x \<longleftrightarrow> 50 < x \<and> x \<le> 100"
  "in_bin (Suc 0) x \<longleftrightarrow> 50 < x \<and> x \<le> 100"
  "in_bin 2 x \<longleftrightarrow> 100 < x \<and> x \<le> 150"
  "in_bin 3 x \<longleftrightarrow> 150 < x \<and> x \<le> 200"
  "in_bin 4 x \<longleftrightarrow> 200 < x \<and> x \<le> 300"
  "in_bin 5 x \<longleftrightarrow> 300 < x \<and> x \<le> 500"
  by (auto simp: in_bin_def pie_bins_def numeral_eq_Suc)

lemma pie_labels_distinct: "distinct pie_labels \<and> length pie_labels = 6"
  by (simp add: pie_labels_def)

lemma pie_label_eq_iff:
  "i < 6 \<Longrightarrow> j < 6 \<Longrightarrow> pie_labels ! i = pie_labels ! j \<longleftrightarrow> i = j"
  using pie_labels_distinct by (simp add: nth_eq_iff_index_eq)

lemma cut_label_iff:
  "k \<in> {0, 1, 2, 3, 4, 5} \<Longrightarrow>
   cut pie_bins pie_labels (Some x) = Some (pie_labels ! k) \<longleftrightarrow> in_bin k x"
  by (auto simp: cut_cases in_bin_cases pie_label_eq_iff)

lemma value_counts_cut:
  "k \<in> {0, 1, 2, 3, 4, 5} \<Longrightarrow>
   value_counts (map (cut pie_bins pie_labels) s) (pie_labels ! k) =
   length [x \<leftarrow> defined_values s. in_bin k x]"
proof (induction s)
  case Nil
  then show ?case by (simp add: value_counts_def)
next
  case (Cons a s)
  show ?case
  proof (cases a)
    case None
    with Cons show ?thesis by (simp add: value_counts_def cut_def)
  next
    case (Some x)
    with Cons cut_label_iff [of k x] show ?thesis by (simp add: value_counts_def)
  qed
qed

lemma pie_labels_nth: "pie_labels = map ((!) pie_labels) [0, 1, 2, 3, 4, 5]"
  by (simp add: pie_labels_def)

lemma band_index_in_bin: "band_index x = Some k \<Longrightarrow> k \<in> {0, 1, 2, 3, 4, 5} \<and> in_bin k x"
  by (auto simp: band_index_def AQI_CATEGORY_def in_bin_def pie_bins_def split: if_splits)

text \<open>
  C2, as stated, fails: on the indices 25 and 50.5 the program counts one bucket under
  its label for the first bin and one under its label for the second bin; the labels of
  the pie chart are not those of \<open>AQI_CATEGORY\<close>, and \<open>aqi_category\<close> gives 50.5 no band
  at all.
\<close>

theorem counts_not_category_bands_counterexample:
  "counts [Some 25, Some (101 / 2)] = zip pie_labels [1, 1, 0, 0, 0, 0]
   \<and> spec_distribute [Some 25, Some (101 / 2)] =
       zip (map (\<lambda>(lo, hi, name). name) AQI_CATEGORY) [1, 0, 0, 0, 0, 0]
   \<and> counts [Some 25, Some (101 / 2)] \<noteq> spec_distribute [Some 25, Some (101 / 2)]"
proof -
  have c: "map (cut pie_bins pie_labels) [Some 25, Some (101 / 2)] =
           [Some (pie_labels ! 0), Some (pie_labels ! 1)]"
    by (simp add: cut_cases)
  have a: "counts [Some 25, Some (101 / 2)] = zip pie_labels [1, 1, 0, 0, 0, 0]"
    unfolding counts_def Let_def c by (simp add: value_counts_def pie_labels_def)
  have b: "spec_distribute [Some 25, Some (101 / 2)] =
             zip (map (\<lambda>(lo, hi, name). name) AQI_CATEGORY) [1, 0, 0, 0, 0, 0]"
    by (simp add: spec_distribute_def aqi_category_def AQI_CATEGORY_def em_dash_def)
  have "counts [Some 25, Some (101 / 2)] \<noteq> spec_distribute [Some 25, Some (101 / 2)]"
    unfolding a b by (simp add: pie_labels_def AQI_CATEGORY_def)
  with a b show ?thesis by blast
qed

text \<open>
  C2, amended: the keys of \<open>counts\<close> are the six labels of the pie chart, all of them
  and in their order, also those that count nothing; the count of the \<open>k\<close>-th label is
  the number of buckets whose defined index lies in the \<open>k\<close>-th of the intervals
  \<open>[0, 50]\<close>, \<open>(50, 100]\<close>, \<open>(100, 150]\<close>, \<open>(150, 200]\<close>, \<open>(200, 300]\<close>, \<open>(300, 500]\<close>, so
  that an undefined index and an index outside \<open>[0, 500]\<close> are counted nowhere; an index
  in the \<open>k\<close>-th band of \<open>AQI_CATEGORY\<close> lies in the \<open>k\<close>-th interval.
\<close>

theorem counts_by_pie_bins:
  "map fst (counts aqi_max) = pie_labels
   \<and> map snd (counts aqi_max) =
       map (\<lambda>k. length [x \<leftarrow> defined_values aqi_max. in_bin k x]) [0, 1, 2, 3, 4, 5]
   \<and> (band_index x = Some k \<longrightarrow>
        in_bin k x \<and> cut pie_bins pie_labels (Some x) = Some (pie_labels ! k))"
proof (intro conjI impI)
  show "map fst (counts aqi_max) = pie_labels"
    by (simp add: counts_def comp_def)
next
  have "map snd (counts aqi_max) =
        map (\<lambda>l. value_counts (map (cut pie_bins pie_labels) aqi_max) l) pie_labels"
    by (simp add: counts_def comp_def)
  also have "\<dots> = map (\<lambda>k. value_counts (map (cut pie_bins pie_labels) aqi_max) (pie_labels ! k))
                     [0, 1, 2, 3, 4, 5]"
    by (subst pie_labels_nth) (simp only: list.map comp_def)
  also have "\<dots> = map (\<lambda>k. length [x \<leftarrow> defined_values aqi_max. in_bin k x]) [0, 1, 2, 3, 4, 5]"
    by (simp add: value_counts_cut)
  finally show "map snd (counts aqi_max) =
       map (\<lambda>k. length [x \<leftarrow> defined_values aqi_max. in_bin k x]) [0, 1, 2, 3, 4, 5]" .
next
  assume b: "band_index x = Some k"
  then show "in_bin k x" using band_index_in_bin by blast
next
  assume b: "band_index x = Some k"
  then show "cut pie_bins pie_labels (Some x) = Some (pie_labels ! k)"
    using band_index_in_bin [OF b] cut_label_iff [of k x] by blast
qed

theorem counts_by_pie_bins_witness:
  "band_index 75 = Some 1 \<and> in_bin 1 75
   \<and> cut pie_bins pie_labels (Some 75) = Some (''Moderate (51'' @ en_dash @ ''100)'')"
proof -
  have b: "band_index 75 = Some 1"
    by (simp add: band_index_def AQI_CATEGORY_def)
  show ?thesis
    using b counts_by_pie_bins [of "[]" 75 1] by (simp add: pie_labels_def)
qed

subsection \<open>The worst bucket\<close>

lemma idxmax_snoc: "idxmax (s @ [a]) = idxmax_step (idxmax s) a"
  by (simp add: idxmax_def)

lemma idxmax_Nil: "idxmax [] = None"
  by (simp add: idxmax_def)

lemma first_max_at_skip:
  "first_max_at s k t v \<Longrightarrow> first_max_at (s @ [(i, None)]) k t v"
  by (auto simp: first_max_at_def nth_append)

lemma first_max_at_keep:
  "first_max_at s k t v \<Longrightarrow> x \<le> v \<Longrightarrow> first_max_at (s @ [(i, Some x)]) k t v"
  by (auto simp: first_max_at_def nth_append)

lemma first_max_at_new:
  "\<forall>j<length s. \<forall>y. snd (s ! j) = Some y \<longrightarrow> y < x \<Longrightarrow>
   first_max_at (s @ [(i, Some x)]) (length s) i x"
  by (auto simp: first_max_at_def nth_append)

lemma idxmax_char:
  "(idxmax s = None \<longrightarrow> (\<forall>j<length s. snd (s ! j) = None)) \<and>
   (\<forall>t v. idxmax s = Some (t, v) \<longrightarrow> (\<exists>k. first_max_at s k t v))"
proof (induction s rule: rev_induct)
  case Nil
  then show ?case by (simp add: idxmax_Nil)
next
  case (snoc a s)
  obtain i c where a: "a = (i, c)" by (cases a)
  show ?case
  proof (cases c)
    case None
    have step: "idxmax (s @ [a]) = idxmax s"
      using None a by (simp add: idxmax_snoc)
    have "\<forall>j<length (s @ [a]). snd ((s @ [a]) ! j) = None" if "idxmax s = None"
      using that snoc None a by (auto simp: nth_append less_Suc_eq)
    moreover have "\<exists>k. first_max_at (s @ [a]) k t v" if "idxmax s = Some (t, v)" for t v
    proof -
      from that snoc obtain k where "first_max_at s k t v" by blast
      then have "first_max_at (s @ [a]) k t v"
        unfolding a None by (rule first_max_at_skip)
      then show ?thesis ..
    qed
    ultimately show ?thesis
      unfolding step by blast
  next
    case (Some x)
    show ?thesis
    proof (cases "idxmax s")
      case None
      then have "\<forall>j<length s. \<forall>y. snd (s ! j) = Some y \<longrightarrow> y < x"
        using snoc by simp
      from first_max_at_new [OF this, of i] show ?thesis
        using None Some a by (auto simp: idxmax_snoc)
    next
      case best: (Some b)
      obtain j y where b: "b = (j, y)" by (cases b)
      from snoc best b obtain k where k: "first_max_at s k j y" by blast
      show ?thesis
      proof (cases "x > y")
        case True
        from k have "\<forall>j<length s. \<forall>z. snd (s ! j) = Some z \<longrightarrow> z < x"
          using True by (fastforce simp: first_max_at_def)
        from first_max_at_new [OF this, of i] show ?thesis
          using best b Some a True by (auto simp: idxmax_snoc)
      next
        case False
        then have "x \<le> y" by simp
        from first_max_at_keep [OF k this, of i] show ?thesis
          using best b Some a False by (auto simp: idxmax_snoc)
      qed
    qed
  qed
qed

lemma defined_values_empty_iff: "defined_values xs = [] \<longleftrightarrow> (\<forall>a \<in> set xs. a = None)"
proof (induction xs)
  case Nil
  then show ?case by simp
next
  case (Cons a xs)
  then show ?case by (cases a) simp_all
qed

lemma idxmax_zip_None:
  assumes "idxmax (zip idx xs) = None" and "length idx = length xs"
  shows "defined_values xs = []"
proof -
  have "\<forall>j<length xs. xs ! j = None"
    using idxmax_char [of "zip idx xs"] assms by auto
  then show ?thesis
    by (auto simp: defined_values_empty_iff in_set_conv_nth)
qed

lemma idxmax_zip_Some:
  fixes idx :: "int list"
  assumes m: "idxmax (zip idx xs) = Some (t, v)" and l: "length idx = length xs"
    and s: "sorted_wrt (<) idx"
  shows "(t, Some v) \<in> set (zip idx xs) \<and> (\<forall>x \<in> set (defined_values xs). x \<le> v) \<and>
         (\<forall>t'. (t', Some v) \<in> set (zip idx xs) \<longrightarrow> t \<le> t')"
proof -
  from idxmax_char [of "zip idx xs"] m obtain k where k: "first_max_at (zip idx xs) k t v"
    by blast
  then have kl: "k < length xs" and kt: "idx ! k = t" and kv: "xs ! k = Some v"
    and before: "\<forall>j<k. \<forall>x. xs ! j = Some x \<longrightarrow> x < v"
    and all: "\<forall>j<length xs. \<forall>x. xs ! j = Some x \<longrightarrow> x \<le> v"
    using l by (auto simp: first_max_at_def)
  have 1: "(t, Some v) \<in> set (zip idx xs)"
    using kl kt kv l by (auto simp: in_set_zip)
  have 2: "\<forall>x \<in> set (defined_values xs). x \<le> v"
    using all by (auto simp: set_defined_values in_set_conv_nth)
  have 3: "t \<le> t'" if "(t', Some v) \<in> set (zip idx xs)" for t'
  proof -
    from that obtain j where j: "j < length xs" "idx ! j = t'" "xs ! j = Some v"
      using l by (auto simp: in_set_zip)
    have "\<not> j < k" using before j by auto
    then have "k \<le> j" by simp
    then show ?thesis
      using s j l kt sorted_wrt_nth_less [OF s, of k j] by (cases "k = j") auto
  qed
  from 1 2 3 show ?thesis by blast
qed

text \<open>
  C8: for buckets in strictly increasing order of time, \<open>worst\<close> is undefined exactly
  when no bucket has a defined index; otherwise it is a bucket of the series whose
  index is defined and at least every defined index, and no bucket with the same index
  is earlier.
\<close>

theorem worst_is_first_maximum:
  assumes "length idx = length aqi_max" and "sorted_wrt (<) idx"
  shows "(worst idx aqi_max = None \<longleftrightarrow> defined_values aqi_max = []) \<and>
         (worst idx aqi_max = Some (t, v) \<longrightarrow>
            (t, Some v) \<in> set (zip idx aqi_max) \<and>
            (\<forall>x \<in> set (defined_values aqi_max). x \<le> v) \<and>
            (\<forall>t'. (t', Some v) \<in> set (zip idx aqi_max) \<longrightarrow> t \<le> t'))"
proof (intro conjI impI)
  show "worst idx aqi_max = None \<longleftrightarrow> defined_values aqi_max = []"
  proof
    assume n: "worst idx aqi_max = None"
    show "defined_values aqi_max = []"
    proof (rule ccontr)
      assume d: "defined_values aqi_max \<noteq> []"
      with n have "idxmax (zip idx aqi_max) = None"
        by (simp add: worst_def notna_any_iff)
      from idxmax_zip_None [OF this assms(1)] d show False by simp
    qed
  next
    assume "defined_values aqi_max = []"
    then show "worst idx aqi_max = None"
      by (simp add: worst_def notna_any_iff)
  qed
next
  assume w: "worst idx aqi_max = Some (t, v)"
  then have m: "idxmax (zip idx aqi_max) = Some (t, v)"
    by (simp add: worst_def split: if_splits)
  from idxmax_zip_Some [OF m assms]
  show "(t, Some v) \<in> set (zip idx aqi_max)"
    and "\<forall>x \<in> set (defined_values aqi_max). x \<le> v"
    and "\<forall>t'. (t', Some v) \<in> set (zip idx aqi_max) \<longrightarrow> t \<le> t'"
    by blast+
qed

theorem worst_is_first_maximum_witness:
  "length [10, 20, 30, 40 :: int] = length [Some 50, Some 150, None, Some (150 :: rat)]
   \<and> sorted_wrt (<) [10, 20, 30, 40 :: int]
   \<and> worst [10, 20, 30, 40] [Some 50, Some 150, None, Some 150] = Some (20, 150)
   \<and> worst [10, 20, 30, 40] [Some 50, Some 150, None, Some 150] \<noteq> None
   \<and> defined_values [Some 50, Some 150, None, Some 150] \<noteq> []
   \<and> (20, Some 150) \<in> set (zip [10, 20, 30, 40 :: int] [Some 50, Some 150, None, Some (150 :: rat)])
   \<and> (40, Some 150) \<in> set (zip [10, 20, 30, 40 :: int] [Some 50, Some 150, None, Some (150 :: rat)])
   \<and> (20 :: int) \<le> 40
   \<and> 50 \<in> set (defined_values [Some 50, Some 150, None, Some 150])
   \<and> (50 :: rat) \<le> 150"
proof -
  have l: "length [10, 20, 30, 40 :: int] = length [Some 50, Some 150, None, Some (150 :: rat)]"
    by simp
  have s: "sorted_wrt (<) [10, 20, 30, 40 :: int]"
    by simp
  have w: "worst [10, 20, 30, 40] [Some 50, Some 150, None, Some 150] = Some (20, 150)"
    by (simp add: worst_def notna_any_def idxmax_def)
  have z: "(40, Some 150) \<in> set (zip [10, 20, 30, 40 :: int] [Some 50, Some 150, None, Some (150 :: rat)])"
    by simp
  have d: "50 \<in> set (defined_values [Some 50, Some 150, None, Some 150])"
    by simp
  show ?thesis
    using worst_is_first_maximum [OF l s, of 20 150] l s w z d by auto
qed

subsection \<open>No exception in the AQI columns\<close>

lemma scan_table_no_raise:
  "\<forall>(BPlo, BPhi, Ilo, Ihi) \<in> set t. BPlo < BPhi \<Longrightarrow> scan_table t v \<noteq> Some (Inl e)"
  by (simp add: scan_table_find)

lemma table_for_widths: "\<forall>(BPlo, BPhi, Ilo, Ihi) \<in> set (table_for p). BPlo < BPhi"
proof (cases "map_of AQI_TABLE p")
  case None
  then show ?thesis by (simp add: table_for_unknown)
next
  case (Some t)
  then show ?thesis using widths_positive [OF Some] by (simp add: table_for_known)
qed

lemma compute_aqi_no_raise: "compute_aqi_for_value p v \<noteq> Inl e"
  using scan_table_no_raise [OF table_for_widths, of p]
  by (auto simp: compute_aqi_for_value_def Let_def split: option.splits sum.splits)

lemma compute_aqi_None: "compute_aqi_for_value p None = Inr None"
  by (simp add: compute_aqi_for_value_def)

lemma apply_aqi_no_raise: "apply_aqi p col \<noteq> Inl e"
  by (induction col) (auto simp: compute_aqi_no_raise split: sum.splits)

lemma apply_aqi_nth:
  "apply_aqi p col = Inr as \<Longrightarrow>
   length as = length col \<and> (\<forall>k<length col. compute_aqi_for_value p (col ! k) = Inr (as ! k))"
proof (induction col arbitrary: as)
  case Nil
  then show ?case by simp
next
  case (Cons v vs)
  then show ?case
    by (auto simp: nth_Cons split: sum.splits nat.splits)
qed

lemma build_aqi_cols_no_raise: "build_aqi_cols ps conc acc \<noteq> Inl e"
  by (induction ps conc acc rule: build_aqi_cols.induct)
     (auto simp: apply_aqi_no_raise split: option.splits sum.splits)

subsection \<open>The buckets of \<open>aggregate\<close>\<close>

text \<open>The buckets that \<open>aggregate\<close> returns are in strictly increasing order of
  time, and \<open>row_max\<close> gives one overall index for each of them.\<close>

lemma bucket_step_positive: "0 < bucket_step agg"
  by (simp add: bucket_step_def ns_per_hour_def ns_per_day_def)

lemma labels_increasing:
  "0 < (s :: int) \<Longrightarrow> sorted_wrt (<) (map (\<lambda>k. f + int k * s) [0..<n])"
  by (simp add: sorted_wrt_map sorted_wrt_iff_nth_less)

lemma pivot_index_increasing: "sorted_wrt (<) (index (pivot_table rows))"
  by (simp add: pivot_table_def Let_def strict_sorted_iff)

lemma aggregate_index_increasing: "sorted_wrt (<) (index (aggregate dff agg))"
proof -
  have "sorted_wrt (<) (index (resample_mean agg conc))" if "sorted_wrt (<) (index conc)" for conc
    using that labels_increasing [OF bucket_step_positive]
    by (cases "index conc") (simp_all add: resample_mean_def Let_def del: upt_Suc)
  then show ?thesis
    using pivot_index_increasing by (simp add: aggregate_def Let_def)
qed

lemma length_row_max: "length (row_max n cols) = n"
  by (simp add: row_max_def)

lemma mean_None_iff: "mean xs = None \<longleftrightarrow> xs = []"
  by (simp add: mean_def)

lemma set_map_filter_Some: "set (List.map_filter f xs) = {y. \<exists>x \<in> set xs. f x = Some y}"
proof (induction xs)
  case Nil
  then show ?case by simp
next
  case (Cons x xs)
  then show ?case by (cases "f x") auto
qed

lemma set_dropna_sorted:
  "set (dropna_sorted dff) = {x. \<exists>r \<in> set dff. complete_row r = Some x}"
  by (simp add: dropna_sorted_def set_map_filter_Some del: complete_row.simps)

lemma contributing_Cons:
  "contributing (r # dff) agg p b =
     (case complete_row r of
        None \<Rightarrow> []
      | Some (t, q, v) \<Rightarrow> if q = p \<and> bucket_label agg t = b then [v] else [])
     @ contributing dff agg p b"
  by (cases "complete_row r") (auto simp: contributing_def simp del: complete_row.simps)

lemma contributing_empty_iff:
  "contributing dff agg p b = [] \<longleftrightarrow>
   (\<forall>(t, q, v) \<in> set (dropna_sorted dff). q = p \<longrightarrow> bucket_label agg t \<noteq> b)"
proof -
  have "contributing dff agg p b = [] \<longleftrightarrow>
        (\<forall>r \<in> set dff. \<forall>t v. complete_row r = Some (t, p, v) \<longrightarrow> bucket_label agg t \<noteq> b)"
  proof (induction dff)
    case Nil
    then show ?case by (simp add: contributing_def)
  next
    case (Cons r dff)
    show ?case
    proof (cases "complete_row r")
      case None
      with Cons show ?thesis
        by (simp add: contributing_Cons del: complete_row.simps)
    next
      case (Some x)
      obtain t q v where x: "x = (t, q, v)" by (cases x)
      with Some Cons show ?thesis
        by (auto simp: contributing_Cons simp del: complete_row.simps)
    qed
  qed
  then show ?thesis
    unfolding set_dropna_sorted by fastforce
qed

lemma index_pivot: "set (index (pivot_table rows)) = fst ` set rows"
  by (simp add: pivot_table_def Let_def)

lemma column_pivot:
  "map_of (columns (pivot_table rows)) p = Some col \<Longrightarrow>
   col = map (\<lambda>t. mean [v. (t', p', v) \<leftarrow> rows, t' = t \<and> p' = p]) (index (pivot_table rows))"
  by (auto simp: pivot_table_def Let_def map_of_map_restrict restrict_map_def split: if_splits)

lemma cells_empty_iff:
  "[v. (t', p', v) \<leftarrow> rows, t' = t \<and> p' = p] = [] \<longleftrightarrow> (\<forall>v. (t, p, v) \<notin> set rows)"
  by (induction rows) auto

lemma pivot_cell_None_iff:
  assumes "map_of (columns (pivot_table rows)) p = Some col"
    and "k < length (index (pivot_table rows))"
  shows "col ! k = None \<longleftrightarrow> (\<forall>v. (index (pivot_table rows) ! k, p, v) \<notin> set rows)"
proof -
  have "col ! k = mean [v. (t', p', v) \<leftarrow> rows, t' = index (pivot_table rows) ! k \<and> p' = p]"
    using assms(2) by (subst column_pivot [OF assms(1)]) (simp only: nth_map)
  then show ?thesis
    by (simp only: mean_None_iff cells_empty_iff)
qed

lemma bucket_values_empty_iff:
  "bucket_values agg idx (map f idx) b = [] \<longleftrightarrow>
   (\<forall>t \<in> set idx. f t = None \<or> bucket_label agg t \<noteq> b)"
proof (induction idx)
  case Nil
  then show ?case by (simp add: bucket_values_def)
next
  case (Cons t idx)
  have "bucket_values agg (t # idx) (map f (t # idx)) b =
        (case f t of None \<Rightarrow> [] | Some x \<Rightarrow> if bucket_label agg t = b then [x] else [])
        @ bucket_values agg idx (map f idx) b"
    by (cases "f t") (simp_all add: bucket_values_def)
  with Cons show ?case
    by (cases "f t") auto
qed

lemma pivot_bucket_empty_iff:
  assumes "map_of (columns (pivot_table rows)) p = Some col"
  shows "bucket_values agg (index (pivot_table rows)) col b = [] \<longleftrightarrow>
         (\<forall>(t, q, v) \<in> set rows. q = p \<longrightarrow> bucket_label agg t \<noteq> b)"
proof -
  let ?f = "\<lambda>t. mean [v. (t', p', v) \<leftarrow> rows, t' = t \<and> p' = p]"
  have "bucket_values agg (index (pivot_table rows)) col b = [] \<longleftrightarrow>
        (\<forall>t \<in> fst ` set rows. ?f t = None \<or> bucket_label agg t \<noteq> b)"
    by (subst column_pivot [OF assms]) (simp only: bucket_values_empty_iff index_pivot)
  also have "\<dots> \<longleftrightarrow> (\<forall>t \<in> fst ` set rows. (\<forall>v. (t, p, v) \<notin> set rows) \<or> bucket_label agg t \<noteq> b)"
    by (simp only: mean_None_iff cells_empty_iff)
  also have "\<dots> \<longleftrightarrow> (\<forall>(t, q, v) \<in> set rows. q = p \<longrightarrow> bucket_label agg t \<noteq> b)"
    by force
  finally show ?thesis .
qed

lemma bucket_label_other:
  "agg \<notin> {''H'', ''D'', ''W''} \<Longrightarrow> bucket_label agg t = t"
  by (simp add: bucket_label_def)

lemma resample_index_columns:
  assumes "index conc \<noteq> []"
  shows "map_of (columns (resample_mean agg conc)) p = Some col' \<Longrightarrow>
         \<exists>col. map_of (columns conc) p = Some col \<and>
               col' = map (\<lambda>b. mean (bucket_values agg (index conc) col b))
                          (index (resample_mean agg conc))"
  using assms
  by (cases "index conc") (auto simp: resample_mean_def Let_def map_of_map)

lemma resample_empty: "index conc = [] \<Longrightarrow> resample_mean agg conc = conc"
  by (simp add: resample_mean_def)

lemma aggregate_cell_None_iff:
  assumes k: "k < length (index (aggregate dff agg))"
    and c: "map_of (columns (aggregate dff agg)) p = Some col"
  shows "col ! k = None \<longleftrightarrow> contributing dff agg p (index (aggregate dff agg) ! k) = []"
proof (cases "agg \<in> {''H'', ''D'', ''W''}")
  case False
  let ?rows = "dropna_sorted dff"
  from False have a: "aggregate dff agg = pivot_table ?rows"
    by (simp add: aggregate_def)
  have "col ! k = None \<longleftrightarrow> (\<forall>v. (index (pivot_table ?rows) ! k, p, v) \<notin> set ?rows)"
    using pivot_cell_None_iff [of ?rows p col k] k c unfolding a by simp
  then show ?thesis
    unfolding contributing_empty_iff a using bucket_label_other [OF False] by auto
next
  case True
  let ?rows = "dropna_sorted dff"
  let ?conc = "pivot_table ?rows"
  from True have a: "aggregate dff agg = resample_mean agg ?conc"
    by (simp add: aggregate_def)
  have ne: "index ?conc \<noteq> []"
    using k unfolding a by (auto simp: resample_empty)
  from resample_index_columns [OF ne, of agg p col] c obtain col0
    where c0: "map_of (columns ?conc) p = Some col0"
      and col: "col = map (\<lambda>b. mean (bucket_values agg (index ?conc) col0 b))
                         (index (resample_mean agg ?conc))"
    unfolding a by blast
  have "col ! k = mean (bucket_values agg (index ?conc) col0 (index (resample_mean agg ?conc) ! k))"
    using k unfolding a col by simp
  then show ?thesis
    unfolding a contributing_empty_iff
    by (simp add: mean_None_iff pivot_bucket_empty_iff [OF c0])
qed

lemma aggregate_column_length:
  assumes c: "map_of (columns (aggregate dff agg)) p = Some col"
  shows "length col = length (index (aggregate dff agg))"
proof (cases "agg \<in> {''H'', ''D'', ''W''} \<and> index (pivot_table (dropna_sorted dff)) \<noteq> []")
  case False
  then have a: "aggregate dff agg = pivot_table (dropna_sorted dff)"
    by (auto simp: aggregate_def Let_def resample_empty)
  show ?thesis
    using c unfolding a by (subst column_pivot [of "dropna_sorted dff" p col]) simp_all
next
  case True
  then have a: "aggregate dff agg = resample_mean agg (pivot_table (dropna_sorted dff))"
    by (simp add: aggregate_def)
  from resample_index_columns [of "pivot_table (dropna_sorted dff)" agg p col] True c
  show ?thesis
    unfolding a by auto
qed

lemma map_of_dict_set: "map_of (dict_set acc q a) p = (if p = q then Some a else map_of acc p)"
  by (induction acc q a rule: dict_set.induct) auto

lemma build_aqi_cols_lookup:
  "build_aqi_cols ps conc acc = Inr cols \<Longrightarrow> map_of cols p = Some acol \<Longrightarrow>
   map_of acc p = Some acol \<or>
   (\<exists>col. map_of (columns conc) p = Some col \<and> apply_aqi p col = Inr acol)"
proof (induction ps conc acc rule: build_aqi_cols.induct)
  case (1 conc acc)
  then show ?case by simp
next
  case (2 q ps conc acc)
  show ?case
  proof (cases "map_of (columns conc) q")
    case None
    with 2 show ?thesis by simp
  next
    case (Some col)
    obtain a where a: "apply_aqi q col = Inr a"
      using apply_aqi_no_raise [of q col] by (cases "apply_aqi q col") auto
    from 2(2) [OF Some a] 2(3) 2(4) Some a
    have "map_of (dict_set acc q a) p = Some acol \<or>
          (\<exists>col. map_of (columns conc) p = Some col \<and> apply_aqi p col = Inr acol)"
      by simp
    then show ?thesis
      using Some a by (auto simp: map_of_dict_set split: if_splits)
  qed
qed

text \<open>
  C7: in the frame that \<open>aggregate\<close> returns, the cell of a bucket and a pollutant is
  undefined, not zero, exactly when no reading contributes to it; the index that
  \<open>compute_aqi_for_value\<close> gives for such a cell is undefined, and so is the cell of the
  bucket in the AQI column of the pollutant.
\<close>

theorem empty_bucket_undefined:
  assumes k: "k < length (index (aggregate dff agg))"
    and c: "map_of (columns (aggregate dff agg)) p = Some col"
  shows "(col ! k = None \<longleftrightarrow> contributing dff agg p (index (aggregate dff agg) ! k) = [])
       \<and> (contributing dff agg p (index (aggregate dff agg) ! k) = [] \<longrightarrow>
            compute_aqi_for_value p (col ! k) = Inr None
          \<and> (\<forall>ps cols acol. build_aqi_cols ps (aggregate dff agg) [] = Inr cols \<longrightarrow>
                map_of cols p = Some acol \<longrightarrow> acol ! k = None))"
proof (intro conjI impI allI)
  show iff: "col ! k = None \<longleftrightarrow> contributing dff agg p (index (aggregate dff agg) ! k) = []"
    by (rule aggregate_cell_None_iff [OF k c])
  assume e: "contributing dff agg p (index (aggregate dff agg) ! k) = []"
  with iff have n: "col ! k = None" by simp
  then show "compute_aqi_for_value p (col ! k) = Inr None"
    by (simp add: compute_aqi_None)
  fix ps cols acol
  assume b: "build_aqi_cols ps (aggregate dff agg) [] = Inr cols" and m: "map_of cols p = Some acol"
  from build_aqi_cols_lookup [OF b m] c have ap: "apply_aqi p col = Inr acol"
    by auto
  have len: "length col = length (index (aggregate dff agg))"
    by (rule aggregate_column_length [OF c])
  from apply_aqi_nth [OF ap] k len have "compute_aqi_for_value p (col ! k) = Inr (acol ! k)"
    by simp
  with n show "acol ! k = None"
    by (simp add: compute_aqi_None)
qed

lemma ex_aggregate:
  "aggregate ex_df ''D'' =
     \<lparr> index = [0, 86400000000000, 172800000000000],
       columns = [(''pm25'', [Some 10, None, Some 30]), (''o3'', [None, None, Some 60])] \<rparr>"
  by code_simp

lemma ex_build_aqi_cols:
  "build_aqi_cols [''pm25''] (aggregate ex_df ''D'') [] =
     Inr [(''pm25'', [Some (125 / 3), None, Some (20654 / 233)])]"
  unfolding ex_aggregate by code_simp

theorem empty_bucket_undefined_witness:
  "1 < length (index (aggregate ex_df ''D''))
   \<and> map_of (columns (aggregate ex_df ''D'')) ''pm25'' = Some [Some 10, None, Some 30]
   \<and> contributing ex_df ''D'' ''pm25'' (index (aggregate ex_df ''D'') ! 1) = []
   \<and> [Some 10, None, Some (30 :: rat)] ! 1 = None
   \<and> compute_aqi_for_value ''pm25'' ([Some 10, None, Some 30] ! 1) = Inr None
   \<and> build_aqi_cols [''pm25''] (aggregate ex_df ''D'') [] =
        Inr [(''pm25'', [Some (125 / 3), None, Some (20654 / 233)])]
   \<and> map_of [(''pm25'', [Some (125 / 3), None, Some (20654 / 233 :: rat)])] ''pm25'' =
        Some [Some (125 / 3), None, Some (20654 / 233)]
   \<and> [Some (125 / 3), None, Some (20654 / 233 :: rat)] ! 1 = None"
proof -
  have k: "1 < length (index (aggregate ex_df ''D''))"
    by (simp add: ex_aggregate)
  have c: "map_of (columns (aggregate ex_df ''D'')) ''pm25'' = Some [Some 10, None, Some 30]"
    by (simp add: ex_aggregate)
  have e: "contributing ex_df ''D'' ''pm25'' (index (aggregate ex_df ''D'') ! 1) = []"
    unfolding ex_aggregate by code_simp
  have m: "map_of [(''pm25'', [Some (125 / 3), None, Some (20654 / 233 :: rat)])] ''pm25'' =
        Some [Some (125 / 3), None, Some (20654 / 233)]"
    by simp
  show ?thesis
    using empty_bucket_undefined [OF k c] k c e ex_build_aqi_cols m by blast
qed

subsection \<open>No data\<close>

text \<open>
  C9: when no reading passes the filters, \<open>update_all\<close> returns, without an exception,
  the outcome with the three empty figures, the placeholders and the message that there
  is no data in the selected filters; when some reading passes the filters it returns,
  again without an exception, an outcome that is not this one and does not carry this
  message.
\<close>

theorem update_all_no_data:
  "(filter_readings df cty stn start_date end_date pollutants = [] \<longrightarrow>
      update_all df cty stn start_date end_date pollutants agg thresh =
        Inr (empty_outcome No_data_in_filters))
   \<and> (filter_readings df cty stn start_date end_date pollutants \<noteq> [] \<longrightarrow>
        (\<exists>out. update_all df cty stn start_date end_date pollutants agg thresh = Inr out
               \<and> insight_md out \<noteq> No_data_in_filters
               \<and> out \<noteq> empty_outcome No_data_in_filters))"
proof (intro conjI impI)
  assume "filter_readings df cty stn start_date end_date pollutants = []"
  then show "update_all df cty stn start_date end_date pollutants agg thresh =
        Inr (empty_outcome No_data_in_filters)"
    by (simp add: update_all_def)
next
  let ?dff = "filter_readings df cty stn start_date end_date pollutants"
  let ?ps = "case pollutants of None \<Rightarrow> [] | Some ps \<Rightarrow> ps"
  assume ne: "?dff \<noteq> []"
  obtain cols where cols: "build_aqi_cols ?ps (aggregate ?dff agg) [] = Inr cols"
    using build_aqi_cols_no_raise [of ?ps "aggregate ?dff agg" "[]"]
    by (cases "build_aqi_cols ?ps (aggregate ?dff agg) []") auto
  obtain out where out: "update_all df cty stn start_date end_date pollutants agg thresh = Inr out"
    and ins: "insight_md out \<noteq> No_data_in_filters"
    using ne cols by (cases "cols = []") (simp_all add: update_all_def Let_def empty_outcome_def)
  from ins have "out \<noteq> empty_outcome No_data_in_filters"
    by (auto simp: empty_outcome_def)
  with out ins
  show "\<exists>out. update_all df cty stn start_date end_date pollutants agg thresh = Inr out
               \<and> insight_md out \<noteq> No_data_in_filters
               \<and> out \<noteq> empty_outcome No_data_in_filters"
    by blast
qed

theorem update_all_no_data_witness:
  "filter_readings ex_df (Some ''B'') None None None (Some [''pm25'']) = []
   \<and> update_all ex_df (Some ''B'') None None None (Some [''pm25'']) ''D'' (Some 100) =
       Inr (empty_outcome No_data_in_filters)
   \<and> filter_readings ex_df (Some ''A'') None None None (Some [''pm25'']) \<noteq> []
   \<and> (\<exists>out. update_all ex_df (Some ''A'') None None None (Some [''pm25'']) ''D'' (Some 100) = Inr out
            \<and> insight_md out \<noteq> No_data_in_filters
            \<and> out \<noteq> empty_outcome No_data_in_filters)"
proof -
  have e: "filter_readings ex_df (Some ''B'') None None None (Some [''pm25'']) = []"
    by (simp add: filter_readings_def ex_df_def guard_station_def)
  have n: "filter_readings ex_df (Some ''A'') None None None (Some [''pm25'']) \<noteq> []"
    by (simp add: filter_readings_def ex_df_def guard_station_def)
  show ?thesis
    using e n
      update_all_no_data [of ex_df "Some ''B''" None None None "Some [''pm25'']" "''D''" "Some 100"]
      update_all_no_data [of ex_df "Some ''A''" None None None "Some [''pm25'']" "''D''" "Some 100"]
    by blast
qed

end
